theory Spec2Isabelle
  imports Main "HOL-Library.Word"
begin

section \<open>JavaScript strings\<close>

text \<open>
  A JavaScript string is a sequence of 16-bit UTF-16 code units; \<open>split\<close>, \<open>trim\<close>,
  \<open>trimEnd\<close>, \<open>===\<close> and \<open>+\<close> all work on code units. \<open>js\<close> turns an ASCII literal into
  such a string.
\<close>

type_synonym jschar = "16 word"
type_synonym jsstring = "jschar list"

definition js :: "string \<Rightarrow> jsstring" where
  "js s = map of_char s"

definition LF :: jschar where
  "LF = 0x0A"

text \<open>
  The code units removed by \<open>String.prototype.trim\<close>, \<open>trimStart\<close> and \<open>trimEnd\<close>:
  ECMAScript's WhiteSpace (TAB, VT, FF, SP, NBSP, ZWNBSP and the Unicode category Zs)
  and LineTerminator (LF, CR, LS, PS). All of them lie in the Basic Multilingual Plane,
  so each is a single code unit.
\<close>

definition isWhiteSpace :: "jschar \<Rightarrow> bool" where
  "isWhiteSpace c \<longleftrightarrow>
     c \<in> set [0x09, 0x0A, 0x0B, 0x0C, 0x0D, 0x20, 0xA0, 0x1680, 0x2028, 0x2029,
               0x202F, 0x205F, 0x3000, 0xFEFF]
     \<or> (0x2000 \<le> c \<and> c \<le> 0x200A)"

definition trimStart :: "jsstring \<Rightarrow> jsstring" where
  "trimStart s = dropWhile isWhiteSpace s"

definition trimEnd :: "jsstring \<Rightarrow> jsstring" where
  "trimEnd s = rev (dropWhile isWhiteSpace (rev s))"

definition trim :: "jsstring \<Rightarrow> jsstring" where
  "trim s = trimEnd (trimStart s)"

text \<open>\<open>s.split('\n')\<close>: the pieces between line feeds; the empty string gives one empty piece.\<close>

fun split_LF :: "jsstring \<Rightarrow> jsstring list" where
  "split_LF [] = [[]]"
| "split_LF (c # cs) =
     (if c = LF then [] # split_LF cs
      else (case split_LF cs of
              [] \<Rightarrow> [[c]]
            | l # ls \<Rightarrow> (c # l) # ls))"

text \<open>\<open>lines.join('\n')\<close>.\<close>

fun join_LF :: "jsstring list \<Rightarrow> jsstring" where
  "join_LF [] = []"
| "join_LF [l] = l"
| "join_LF (l # ls) = l @ LF # join_LF ls"

text \<open>\<open>s.endsWith(suffix)\<close>.\<close>

definition endsWith :: "jsstring \<Rightarrow> jsstring \<Rightarrow> bool" where
  "endsWith s suffix \<longleftrightarrow>
     length suffix \<le> length s \<and> drop (length s - length suffix) s = suffix"

text \<open>
  \<open>`${k}`\<close> for an integer \<open>k\<close>: its decimal digits, with a minus sign when negative (the
  form JavaScript gives every integer of magnitude below \<open>10^21\<close>, which covers exit codes,
  counts and clock differences).
\<close>

fun digitsOf :: "nat \<Rightarrow> jsstring" where
  "digitsOf n =
     (if n < 10 then [of_nat (48 + n)]
      else digitsOf (n div 10) @ [of_nat (48 + n mod 10)])"

declare digitsOf.simps [simp del]

definition numberToString :: "int \<Rightarrow> jsstring" where
  "numberToString k = (if k < 0 then 0x2D # digitsOf (nat (- k)) else digitsOf (nat k))"


section \<open>Data model (Interfaces)\<close>

record TestCase =
  input :: jsstring
  "output" :: jsstring
  explanation :: "jsstring option"

record ProblemData =
  title :: jsstring
  timeLimit :: jsstring
  memoryLimit :: jsstring
  description :: jsstring
  inputFormat :: jsstring
  outputFormat :: jsstring
  sampleTests :: "TestCase list"
  source :: jsstring
  difficulty :: "jsstring option"

record TestResult =
  testNumber :: nat
  passed :: bool
  input :: jsstring
  expectedOutput :: jsstring
  actualOutput :: jsstring
  error :: "jsstring option"
  executionTime :: int


section \<open>Output comparison\<close>

definition normalizeOutput :: "jsstring \<Rightarrow> jsstring" where
  "normalizeOutput out = trim (join_LF (map trimEnd (split_LF out)))"

definition compareOutputs :: "jsstring \<Rightarrow> jsstring \<Rightarrow> bool" where
  "compareOutputs actual expected \<longleftrightarrow>
     (let normalizedActual = normalizeOutput actual;
          normalizedExpected = normalizeOutput expected
      in normalizedActual = normalizedExpected)"

text \<open>
  The normalizer as the specification words it, for comparison with \<open>normalizeOutput\<close>:
  split on line boundaries, strip trailing white space from each line, strip the leading
  and the trailing blank lines of the whole text, and join what is left with single line
  feeds. After the per-line strip a blank line is an empty line. Nothing is removed from
  the start of a line that stays.
\<close>

definition spec_normalize :: "jsstring \<Rightarrow> jsstring" where
  "spec_normalize text =
     join_LF (rev (dropWhile (\<lambda>l. l = [])
                (rev (dropWhile (\<lambda>l. l = []) (map trimEnd (split_LF text))))))"

text \<open>A text all of whose lines are already free of trailing white space.\<close>

definition rstripped_lines :: "jsstring \<Rightarrow> bool" where
  "rstripped_lines s \<longleftrightarrow> (\<forall>l \<in> set (split_LF s). trimEnd l = l)"


section \<open>Values thrown, effects performed, events received\<close>

text \<open>
  A value that is thrown or that rejects a promise: an instance of \<open>Error\<close> with its
  \<open>message\<close>, or any other value, kept as its \<open>String(...)\<close> conversion.
\<close>

datatype thrown = ErrorObject jsstring | OtherValue jsstring

text \<open>\<open>error instanceof Error ? error.message : String(error)\<close>.\<close>

definition errorMessageOf :: "thrown \<Rightarrow> jsstring" where
  "errorMessageOf err = (case err of ErrorObject message \<Rightarrow> message | OtherValue s \<Rightarrow> s)"

text \<open>
  What the handler does to the outside world, in the order in which it does it. The
  \<open>console.log\<close> calls of \<open>runSingleTest\<close> are left out; nothing reads them back.
\<close>

datatype effect =
    Spawn jsstring
  | StdinWrite jsstring
  | StdinEnd
  | SetTimeout nat
  | ClearTimeout
  | Kill
  | UncaughtException thrown
  | ShowErrorMessage jsstring
  | ShowInformationMessage jsstring
  | ShowWarningMessage jsstring
  | SaveDocument
  | Exec jsstring
  | CreateOutputChannel jsstring
  | ChannelClear
  | ChannelShow
  | AppendLine jsstring
  | UnlinkSync jsstring

text \<open>
  What the runtime delivers for one child process: a chunk on its stdout or stderr, its
  \<open>'close'\<close> event with the exit code (\<open>null\<close> when a signal ended it), or an \<open>'error'\<close>
  event on the child object (the way \<open>child_process.spawn\<close> reports a file that cannot be
  started). A \<open>'close'\<close> event carries the reading \<open>Date.now() - startTime\<close> that its
  listener takes.
\<close>

datatype proc_event =
    StdoutData jsstring
  | StderrData jsstring
  | Close "int option" int
  | ErrorEvent thrown

text \<open>
  The behaviour of one call of \<open>cp.spawn\<close>, chosen by the environment. Either the call
  throws, or it returns a child; then \<open>Spawned evs timerNow\<close> lists the events delivered
  before the 5000 ms timer gets its turn, and \<open>timerNow\<close> is the clock reading the timer
  callback takes if it runs. The timer callback runs after \<open>evs\<close> unless a \<open>'close'\<close>
  listener has cancelled it; whatever is delivered later finds the promise settled and
  cannot change the result.
\<close>

datatype behaviour =
    SpawnThrows thrown
  | Spawned "proc_event list" int

datatype promise = Pending | Resolved TestResult | Rejected thrown


section \<open>Running one test: \<open>runSingleTest\<close>\<close>

text \<open>
  The variables captured by the callbacks of one \<open>runSingleTest\<close> call, the state of its
  timer and of its promise, and the effects performed so far.
\<close>

record run_state =
  stdout :: jsstring
  stderr :: jsstring
  timerPending :: bool
  settled :: "TestResult option"
  effects :: "effect list"

text \<open>\<open>resolve(value)\<close>: settles the promise the first time it is called, and only then.\<close>

definition resolve :: "TestResult \<Rightarrow> run_state \<Rightarrow> run_state" where
  "resolve r s = (case settled s of None \<Rightarrow> s\<lparr>settled := Some r\<rparr> | Some _ \<Rightarrow> s)"

text \<open>The synchronous part of the promise executor, when \<open>cp.spawn\<close> returns a child.\<close>

definition executor :: "jsstring \<Rightarrow> TestCase \<Rightarrow> run_state" where
  "executor executablePath testCase =
     \<lparr>stdout = [], stderr = [], timerPending = True, settled = None,
      effects = [Spawn executablePath,
                 StdinWrite (TestCase.input testCase @ [LF]),
                 StdinEnd,
                 SetTimeout 5000]\<rparr>"

text \<open>The callback given to \<open>setTimeout\<close>.\<close>

definition onTimeout :: "TestCase \<Rightarrow> nat \<Rightarrow> int \<Rightarrow> run_state \<Rightarrow> run_state" where
  "onTimeout testCase num now s0 =
     (let s = s0\<lparr>timerPending := False, effects := effects s0 @ [Kill]\<rparr>
      in resolve
           \<lparr>testNumber = num, passed = False, input = TestCase.input testCase,
            expectedOutput = output testCase, actualOutput = stdout s,
            error = Some (js ''Time Limit Exceeded''), executionTime = now\<rparr> s)"

text \<open>The listener of the child's \<open>'close'\<close> event.\<close>

definition onClose :: "TestCase \<Rightarrow> nat \<Rightarrow> int option \<Rightarrow> int \<Rightarrow> run_state \<Rightarrow> run_state" where
  "onClose testCase num code now s0 =
     (let s = s0\<lparr>timerPending := False, effects := effects s0 @ [ClearTimeout]\<rparr>
      in case code of
           None \<Rightarrow>
             resolve
               \<lparr>testNumber = num, passed = False, input = TestCase.input testCase,
                expectedOutput = output testCase, actualOutput = stdout s,
                error = Some (js ''Process terminated unexpectedly. Program may be waiting for input or stuck in infinite loop.''
                              @ [LF] @ js ''Stderr: '' @ stderr s),
                executionTime = now\<rparr> s
         | Some c \<Rightarrow>
             if c \<noteq> 0 then
               resolve
                 \<lparr>testNumber = num, passed = False, input = TestCase.input testCase,
                  expectedOutput = output testCase, actualOutput = stdout s,
                  error = Some (js ''Runtime Error (Exit code: '' @ numberToString c @ js '')''
                                @ [LF] @ stderr s),
                  executionTime = now\<rparr> s
             else
               (let ok = compareOutputs (stdout s) (output testCase)
                in resolve
                     \<lparr>testNumber = num, passed = ok, input = TestCase.input testCase,
                      expectedOutput = output testCase, actualOutput = stdout s,
                      error = (if ok then None else Some (js ''Wrong Answer'')),
                      executionTime = now\<rparr> s))"

text \<open>
  Delivery of one event to the listeners that \<open>runSingleTest\<close> registers: \<open>'data'\<close> on
  stdout and on stderr, \<open>'close'\<close> on the child. It registers none for \<open>'error'\<close>, and an
  event emitter with no \<open>'error'\<close> listener throws the error from the event loop, where no
  \<open>try\<close> block of the handler is on the stack.
\<close>

fun deliver :: "TestCase \<Rightarrow> nat \<Rightarrow> proc_event \<Rightarrow> run_state \<Rightarrow> run_state" where
  "deliver testCase num (StdoutData chunk) s = s\<lparr>stdout := stdout s @ chunk\<rparr>"
| "deliver testCase num (StderrData chunk) s = s\<lparr>stderr := stderr s @ chunk\<rparr>"
| "deliver testCase num (Close code now) s = onClose testCase num code now s"
| "deliver testCase num (ErrorEvent err) s = s\<lparr>effects := effects s @ [UncaughtException err]\<rparr>"

definition runSingleTest ::
  "behaviour \<Rightarrow> jsstring \<Rightarrow> TestCase \<Rightarrow> nat \<Rightarrow> promise \<times> effect list" where
  "runSingleTest b executablePath testCase num =
     (case b of
        SpawnThrows err \<Rightarrow> (Rejected err, [Spawn executablePath])
      | Spawned evs timerNow \<Rightarrow>
          (let s1 = fold (deliver testCase num) evs (executor executablePath testCase);
               s2 = (if timerPending s1 then onTimeout testCase num timerNow s1 else s1)
           in (case settled s2 of None \<Rightarrow> Pending | Some r \<Rightarrow> Resolved r, effects s2)))"


section \<open>Running the suite: \<open>runTestCases\<close>\<close>

text \<open>
  The body of the \<open>for\<close> loop at index \<open>i\<close>: the \<open>try\<close> block awaits the promise of
  \<open>runSingleTest\<close>, the \<open>catch\<close> block turns a rejection into a result. An \<open>await\<close> of a
  promise that never settles never returns: \<open>None\<close>. The environment \<open>world\<close> gives the
  behaviour of the child spawned for each test number.
\<close>

definition runTestCases_body ::
  "(nat \<Rightarrow> behaviour) \<Rightarrow> jsstring \<Rightarrow> TestCase list \<Rightarrow> nat \<Rightarrow> TestResult option \<times> effect list" where
  "runTestCases_body world executablePath testCases i =
     (let testCase = testCases ! i
      in case runSingleTest (world (i + 1)) executablePath testCase (i + 1) of
           (Resolved result, es) \<Rightarrow> (Some result, es)
         | (Rejected err, es) \<Rightarrow>
             (Some \<lparr>testNumber = i + 1, passed = False, input = TestCase.input testCase,
                    expectedOutput = output testCase, actualOutput = [],
                    error = Some (errorMessageOf err), executionTime = 0\<rparr>, es)
         | (Pending, es) \<Rightarrow> (None, es))"

function runTestCases_loop ::
  "(nat \<Rightarrow> behaviour) \<Rightarrow> jsstring \<Rightarrow> TestCase list \<Rightarrow> nat \<Rightarrow> TestResult list \<Rightarrow> effect list
     \<Rightarrow> (TestResult list \<times> effect list) option" where
  "runTestCases_loop world executablePath testCases i results log =
     (if i < length testCases then
        (case runTestCases_body world executablePath testCases i of
           (Some result, es) \<Rightarrow>
             runTestCases_loop world executablePath testCases (i + 1) (results @ [result]) (log @ es)
         | (None, es) \<Rightarrow> None)
      else Some (results, log))"
  by pat_completeness auto
termination
  by (relation "measure (\<lambda>(world, executablePath, testCases, i, results, log). length testCases - i)")
     auto

declare runTestCases_loop.simps [simp del]

definition runTestCases ::
  "(nat \<Rightarrow> behaviour) \<Rightarrow> jsstring \<Rightarrow> TestCase list \<Rightarrow> (TestResult list \<times> effect list) option" where
  "runTestCases world executablePath testCases =
     runTestCases_loop world executablePath testCases 0 [] []"


section \<open>Reporting: \<open>showTestResults\<close>\<close>

definition passedTests :: "TestResult list \<Rightarrow> nat" where
  "passedTests results = length (filter passed results)"

definition totalTests :: "TestResult list \<Rightarrow> nat" where
  "totalTests results = length results"

text \<open>The lines appended to the output channel for one result.\<close>

definition resultLines :: "TestResult \<Rightarrow> effect list" where
  "resultLines result =
     [AppendLine ([LF] @ js ''Test '' @ numberToString (int (testNumber result)) @ js '': ''
                  @ (if passed result then [0x2705] @ js '' PASSED''
                     else [0x274C] @ js '' FAILED'')),
      AppendLine (js ''Execution Time: '' @ numberToString (executionTime result) @ js ''ms'')]
     @ (if \<not> passed result then
          [AppendLine ([LF] @ js ''Input:''),
           AppendLine (TestResult.input result),
           AppendLine ([LF] @ js ''Expected Output:''),
           AppendLine (expectedOutput result),
           AppendLine ([LF] @ js ''Actual Output:''),
           AppendLine (actualOutput result)]
          @ (case error result of
               None \<Rightarrow> []
             | Some e \<Rightarrow> if e \<noteq> [] then [AppendLine ([LF] @ js ''Error: '' @ e)] else [])
          @ [AppendLine (replicate 40 0x2D)]
        else [])"

definition showTestResults :: "TestResult list \<Rightarrow> effect list" where
  "showTestResults results =
     [if passedTests results = totalTests results then
        ShowInformationMessage ([0x2705] @ js '' All '' @ numberToString (int (totalTests results))
                                @ js '' tests passed!'')
      else
        ShowWarningMessage ([0x274C, 0x20] @ numberToString (int (passedTests results)) @ js ''/''
                            @ numberToString (int (totalTests results)) @ js '' tests passed''),
      CreateOutputChannel (js ''Test Results''),
      ChannelClear,
      ChannelShow,
      AppendLine (replicate 60 0x3D),
      AppendLine (js ''TEST RESULTS: '' @ numberToString (int (passedTests results)) @ js ''/''
                  @ numberToString (int (totalTests results)) @ js '' PASSED''),
      AppendLine (replicate 60 0x3D)]
     @ concat (map resultLines results)"


section \<open>The command handler: \<open>handleRunTests\<close>\<close>

text \<open>
  The editor, file system, compiler and child processes the handler meets.
  \<open>executableFor\<close> stands for the path arithmetic of \<open>compileCppFile\<close>
  (\<open>path.join(path.dirname(p), path.basename(p, '.cpp') + '.exe')\<close>), \<open>exec\<close> for the
  outcome of running the compile command, \<open>processes\<close> for the children spawned.
  Saving a dirty document is taken to succeed.
\<close>

record editor =
  fileName :: jsstring
  isDirty :: bool

datatype exec_result = ExecOk | ExecError jsstring jsstring

record host =
  activeTextEditor :: "editor option"
  executableFor :: "jsstring \<Rightarrow> jsstring"
  exec :: "jsstring \<Rightarrow> exec_result"
  existsSync :: "jsstring \<Rightarrow> bool"
  processes :: "nat \<Rightarrow> behaviour"

text \<open>
  \<open>compileCppFile\<close>: rejects with the string \<open>`Compilation failed: ${stderr || error.message}`\<close>
  or resolves with the executable's path. \<open>ExecError stderr message\<close> is a failed compile.
\<close>

definition compileCppFile :: "host \<Rightarrow> jsstring \<Rightarrow> (thrown + jsstring) \<times> effect list" where
  "compileCppFile h cppFilePath =
     (let executablePath = executableFor h cppFilePath;
          compileCommand = js ''g++ -o '' @ [0x22] @ executablePath @ [0x22, 0x20, 0x22]
                           @ cppFilePath @ [0x22] @ js '' -std=c++17 -O2''
      in (case exec h compileCommand of
            ExecError stderr' message \<Rightarrow>
              Inl (OtherValue (js ''Compilation failed: ''
                               @ (if stderr' \<noteq> [] then stderr' else message)))
          | ExecOk \<Rightarrow> Inr executablePath,
          [Exec compileCommand]))"

text \<open>\<open>cleanup\<close>: deletes the executable if it exists; a failure to delete is ignored.\<close>

definition cleanup :: "host \<Rightarrow> jsstring \<Rightarrow> effect list" where
  "cleanup h executablePath =
     (if existsSync h executablePath then [UnlinkSync executablePath] else [])"

definition handleRunTests :: "host \<Rightarrow> ProblemData option \<Rightarrow> effect list option" where
  "handleRunTests h problemData =
     (case problemData of
        None \<Rightarrow> Some [ShowErrorMessage (js ''No problem data exisis'')]
      | Some pd \<Rightarrow>
          (case activeTextEditor h of
             None \<Rightarrow> Some [ShowErrorMessage (js ''Please open a C++ file to run tests'')]
           | Some activeEditor \<Rightarrow>
               if \<not> endsWith (fileName activeEditor) (js ''.cpp'') then
                 Some [ShowErrorMessage (js ''Please open a C++ file to run tests'')]
               else
                 (let cppFilePath = fileName activeEditor;
                      before = (if isDirty activeEditor then [SaveDocument] else [])
                               @ [ShowInformationMessage
                                    ([0xD83D, 0xDD04] @ js '' Compiling and running tests...'')]
                  in case compileCppFile h cppFilePath of
                       (Inl err, ces) \<Rightarrow>
                         Some (before @ ces
                               @ [ShowErrorMessage (js ''Test execution failed: ''
                                                    @ errorMessageOf err)])
                     | (Inr executablePath, ces) \<Rightarrow>
                         (case runTestCases (processes h) executablePath (sampleTests pd) of
                            None \<Rightarrow> None
                          | Some (results, log) \<Rightarrow>
                              Some (before @ ces @ log @ showTestResults results
                                    @ cleanup h executablePath)))))"


section \<open>Reading event lists and effect lists\<close>

text \<open>
  What a list of events adds to the stdout and stderr buffers, whether an event is
  \<open>'close'\<close>, and the effects that the delivery of a list of events performs.
\<close>

fun stdoutOf :: "proc_event list \<Rightarrow> jsstring" where
  "stdoutOf [] = []"
| "stdoutOf (StdoutData chunk # evs) = chunk @ stdoutOf evs"
| "stdoutOf (_ # evs) = stdoutOf evs"

fun stderrOf :: "proc_event list \<Rightarrow> jsstring" where
  "stderrOf [] = []"
| "stderrOf (StderrData chunk # evs) = chunk @ stderrOf evs"
| "stderrOf (_ # evs) = stderrOf evs"

fun isClose :: "proc_event \<Rightarrow> bool" where
  "isClose (Close code now) = True"
| "isClose _ = False"

fun eventEffects :: "proc_event list \<Rightarrow> effect list" where
  "eventEffects [] = []"
| "eventEffects (Close code now # evs) = ClearTimeout # eventEffects evs"
| "eventEffects (ErrorEvent err # evs) = UncaughtException err # eventEffects evs"
| "eventEffects (_ # evs) = eventEffects evs"

fun isStdinOp :: "effect \<Rightarrow> bool" where
  "isStdinOp (StdinWrite s) = True"
| "isStdinOp StdinEnd = True"
| "isStdinOp _ = False"

fun isSetTimeout :: "effect \<Rightarrow> bool" where
  "isSetTimeout (SetTimeout d) = True"
| "isSetTimeout _ = False"

fun spawnReturns :: "behaviour \<Rightarrow> bool" where
  "spawnReturns (Spawned evs timerNow) = True"
| "spawnReturns (SpawnThrows err) = False"

text \<open>
  A result that carries the number, input and expected output of its test case, and an
  error string exactly when it did not pass.
\<close>

definition wellFormedResult :: "TestCase \<Rightarrow> nat \<Rightarrow> TestResult \<Rightarrow> bool" where
  "wellFormedResult tc n r \<longleftrightarrow>
     testNumber r = n \<and> TestResult.input r = TestCase.input tc \<and>
     expectedOutput r = output tc \<and> (passed r \<longleftrightarrow> error r = None)"

text \<open>A sample test: input \<open>8\<close>, expected output \<open>YES\<close>.\<close>

definition sampleCase :: TestCase where
  "sampleCase = \<lparr>TestCase.input = js ''8'', output = js ''YES'', explanation = None\<rparr>"


section \<open>Lemmas on the normalizer\<close>

lemma isWhiteSpace_LF: "isWhiteSpace LF"
  by (simp add: isWhiteSpace_def LF_def)

lemma split_LF_not_Nil: "split_LF s \<noteq> []"
  by (induction s) (auto split: list.splits)

lemma join_split_LF: "join_LF (split_LF s) = s"
proof (induction s)
  case Nil
  show ?case by simp
next
  case (Cons c cs)
  obtain l ls where sp: "split_LF cs = l # ls"
    using split_LF_not_Nil [of cs] by (cases "split_LF cs") auto
  show ?case
  proof (cases "c = LF")
    case True
    with sp Cons show ?thesis by simp
  next
    case False
    with sp Cons show ?thesis by (cases ls) auto
  qed
qed

lemma trimEnd_Nil: "trimEnd [] = []"
  by (simp add: trimEnd_def)

lemma trimEnd_snoc:
  "trimEnd (xs @ [x]) = (if isWhiteSpace x then trimEnd xs else xs @ [x])"
  by (simp add: trimEnd_def)

lemma trimEnd_idem: "trimEnd (trimEnd s) = trimEnd s"
  by (induction s rule: rev_induct) (simp_all add: trimEnd_Nil trimEnd_snoc)

lemma trimEnd_fixed_iff: "trimEnd s = s \<longleftrightarrow> s = [] \<or> \<not> isWhiteSpace (last s)"
proof (cases s rule: rev_cases)
  case Nil
  then show ?thesis by (simp add: trimEnd_Nil)
next
  case (snoc xs x)
  have "length (trimEnd xs) \<le> length xs"
    by (simp add: trimEnd_def) (metis length_dropWhile_le length_rev)
  then have "trimEnd xs \<noteq> xs @ [x]"
    by (metis length_append_singleton Suc_n_not_le_n)
  with snoc show ?thesis by (simp add: trimEnd_snoc)
qed

lemma set_trimEnd: "set (trimEnd s) \<subseteq> set s"
  by (induction s rule: rev_induct) (auto simp: trimEnd_Nil trimEnd_snoc)

lemma split_LF_pieces: "l \<in> set (split_LF s) \<Longrightarrow> LF \<notin> set l"
proof (induction s arbitrary: l)
  case Nil
  then show ?case by simp
next
  case (Cons c cs)
  obtain k ks where sp: "split_LF cs = k # ks"
    using split_LF_not_Nil [of cs] by (cases "split_LF cs") auto
  show ?case
  proof (cases "c = LF")
    case True
    with Cons show ?thesis by auto
  next
    case False
    with Cons.prems sp have "l = c # k \<or> l \<in> set ks" by auto
    then show ?thesis
      using False Cons.IH [of k] Cons.IH [of l] sp by auto
  qed
qed

lemma split_join_LF:
  "ls \<noteq> [] \<Longrightarrow> (\<forall>l \<in> set ls. LF \<notin> set l) \<Longrightarrow> split_LF (join_LF ls) = ls"
proof (induction ls rule: join_LF.induct)
  case 1
  then show ?case by simp
next
  case (2 l)
  then have "LF \<notin> set l" by simp
  then show ?case by (induction l) auto
next
  case (3 l k ks)
  then have ih: "split_LF (join_LF (k # ks)) = k # ks" by simp
  from 3 have "LF \<notin> set l" by simp
  then have "split_LF (l @ LF # join_LF (k # ks)) = l # split_LF (join_LF (k # ks))"
    by (induction l) auto
  with ih show ?case by simp
qed

lemma rstripped_lines_Cons: "rstripped_lines (c # cs) \<Longrightarrow> rstripped_lines cs"
proof -
  assume a: "rstripped_lines (c # cs)"
  obtain k ks where sp: "split_LF cs = k # ks"
    using split_LF_not_Nil [of cs] by (cases "split_LF cs") auto
  show ?thesis
  proof (cases "c = LF")
    case True
    with a show ?thesis by (simp add: rstripped_lines_def)
  next
    case False
    with a sp have 1: "trimEnd (c # k) = c # k" and 2: "\<forall>l \<in> set ks. trimEnd l = l"
      by (simp_all add: rstripped_lines_def)
    from 1 have "trimEnd k = k"
      by (cases "k = []") (simp_all add: trimEnd_fixed_iff)
    with 2 sp show ?thesis by (simp add: rstripped_lines_def)
  qed
qed

lemma rstripped_lines_trimStart: "rstripped_lines s \<Longrightarrow> rstripped_lines (trimStart s)"
  unfolding trimStart_def
  by (induction s) (auto dest: rstripped_lines_Cons)

lemma split_LF_snoc:
  "split_LF (xs @ [x]) =
     (if x = LF then split_LF xs @ [[]]
      else butlast (split_LF xs) @ [last (split_LF xs) @ [x]])"
proof (induction xs)
  case Nil
  show ?case by simp
next
  case (Cons c cs)
  obtain k ks where sp: "split_LF cs = k # ks"
    using split_LF_not_Nil [of cs] by (cases "split_LF cs") auto
  obtain k' ks' where sp': "split_LF (cs @ [x]) = k' # ks'"
    using split_LF_not_Nil [of "cs @ [x]"] by (cases "split_LF (cs @ [x])") auto
  show ?case
    using Cons sp sp' by (cases ks) (auto split: if_splits)
qed

lemma rstripped_lines_trimEnd: "rstripped_lines s \<Longrightarrow> rstripped_lines (trimEnd s)"
proof (induction s rule: rev_induct)
  case Nil
  then show ?case by (simp add: trimEnd_Nil)
next
  case (snoc x xs)
  show ?case
  proof (cases "x = LF")
    case True
    with snoc.prems have "rstripped_lines xs"
      by (simp add: rstripped_lines_def split_LF_snoc)
    with True snoc.IH show ?thesis
      by (simp add: trimEnd_snoc isWhiteSpace_LF)
  next
    case False
    with snoc.prems have "trimEnd (last (split_LF xs) @ [x]) = last (split_LF xs) @ [x]"
      by (simp add: rstripped_lines_def split_LF_snoc)
    then have "\<not> isWhiteSpace x"
      by (simp add: trimEnd_fixed_iff)
    with snoc.prems show ?thesis by (simp add: trimEnd_snoc)
  qed
qed

lemma rstripped_lines_join:
  "rstripped_lines (join_LF (map trimEnd (split_LF s)))"
proof -
  have "\<forall>l \<in> set (map trimEnd (split_LF s)). LF \<notin> set l"
    using split_LF_pieces set_trimEnd by fastforce
  then have "split_LF (join_LF (map trimEnd (split_LF s))) = map trimEnd (split_LF s)"
    by (simp add: split_join_LF split_LF_not_Nil)
  then show ?thesis
    by (simp add: rstripped_lines_def trimEnd_idem)
qed

lemma rstripped_lines_fixed:
  assumes "rstripped_lines s"
  shows "join_LF (map trimEnd (split_LF s)) = s"
proof -
  have "map trimEnd (split_LF s) = split_LF s"
    using assms by (simp add: rstripped_lines_def map_idI)
  then show ?thesis by (simp add: join_split_LF)
qed

lemma trimStart_trimEnd_trimStart:
  "trimStart (trimEnd (trimStart s)) = trimEnd (trimStart s)"
proof (cases "trimStart s")
  case Nil
  moreover have "trimStart [] = []" by (simp add: trimStart_def)
  ultimately show ?thesis by (simp add: trimEnd_Nil)
next
  case (Cons c cs)
  then have nw: "\<not> isWhiteSpace c"
    unfolding trimStart_def by (metis hd_dropWhile list.sel(1) list.distinct(1))
  have "\<exists>ys. trimEnd (c # cs) = c # ys"
  proof (induction cs rule: rev_induct)
    case Nil
    with nw show ?case using trimEnd_snoc [of "[]" c] by simp
  next
    case (snoc x xs)
    then show ?case using trimEnd_snoc [of "c # xs" x] by auto
  qed
  then obtain ys where "trimEnd (c # cs) = c # ys" ..
  with Cons nw show ?thesis by (simp add: trimStart_def)
qed

lemma trim_idem: "trim (trim s) = trim s"
  by (simp add: trim_def trimStart_trimEnd_trimStart trimEnd_idem)


section \<open>Lemmas on \<open>runSingleTest\<close>\<close>

lemma resolve_simps:
  "stdout (resolve r s) = stdout s"
  "stderr (resolve r s) = stderr s"
  "timerPending (resolve r s) = timerPending s"
  "effects (resolve r s) = effects s"
  "settled (resolve r s) = (case settled s of None \<Rightarrow> Some r | Some r' \<Rightarrow> Some r')"
  by (simp_all add: resolve_def split: option.splits)

lemma onClose_simps:
  "stdout (onClose tc n code now s) = stdout s"
  "stderr (onClose tc n code now s) = stderr s"
  "timerPending (onClose tc n code now s) = False"
  "effects (onClose tc n code now s) = effects s @ [ClearTimeout]"
  by (simp_all add: onClose_def Let_def resolve_simps split: option.splits)

lemma resolve_settles: "\<exists>y. settled (resolve r s) = Some y"
  by (simp add: resolve_simps split: option.splits)

lemma onClose_settles: "\<exists>y. settled (onClose tc n code now s) = Some y"
  by (simp add: onClose_def Let_def resolve_settles split: option.splits)

lemma onClose_settled_keep:
  "settled s = Some r \<Longrightarrow> settled (onClose tc n code now s) = Some r"
  by (simp add: onClose_def Let_def resolve_simps split: option.splits)

lemma deliver_settled_keep:
  "settled s = Some r \<Longrightarrow> settled (deliver tc n e s) = Some r"
  by (cases e) (simp_all add: onClose_settled_keep)

lemma fold_deliver_settled_keep:
  "settled s = Some r \<Longrightarrow> settled (fold (deliver tc n) evs s) = Some r"
  by (induction evs arbitrary: s) (simp_all add: deliver_settled_keep)

lemma deliver_effects:
  "effects (deliver tc n e s) = effects s @ eventEffects [e]"
  by (cases e) (simp_all add: onClose_simps)

lemma eventEffects_Cons: "eventEffects (e # evs) = eventEffects [e] @ eventEffects evs"
  by (cases e) simp_all

lemma fold_deliver_effects:
  "effects (fold (deliver tc n) evs s) = effects s @ eventEffects evs"
proof (induction evs arbitrary: s)
  case Nil
  show ?case by simp
next
  case (Cons e evs)
  show ?case
    using Cons [of "deliver tc n e s"] eventEffects_Cons [of e evs]
    by (simp add: deliver_effects)
qed

lemma deliver_timerPending:
  "timerPending (deliver tc n e s) \<longleftrightarrow> timerPending s \<and> \<not> isClose e"
  by (cases e) (simp_all add: onClose_simps)

lemma fold_deliver_timerPending:
  "timerPending (fold (deliver tc n) evs s) \<longleftrightarrow> timerPending s \<and> \<not> list_ex isClose evs"
  by (induction evs arbitrary: s) (auto simp: deliver_timerPending)

lemma fold_deliver_no_close:
  "\<not> list_ex isClose evs \<Longrightarrow>
   stdout (fold (deliver tc n) evs s) = stdout s @ stdoutOf evs \<and>
   stderr (fold (deliver tc n) evs s) = stderr s @ stderrOf evs \<and>
   settled (fold (deliver tc n) evs s) = settled s"
proof (induction evs arbitrary: s)
  case Nil
  show ?case by simp
next
  case (Cons e evs)
  then show ?case by (cases e) simp_all
qed

lemma settled_invariant:
  "timerPending s \<or> settled s \<noteq> None \<Longrightarrow>
   timerPending (fold (deliver tc n) evs s) \<or> settled (fold (deliver tc n) evs s) \<noteq> None"
proof (induction evs arbitrary: s)
  case Nil
  then show ?case by simp
next
  case (Cons e evs)
  have "timerPending (deliver tc n e s) \<or> settled (deliver tc n e s) \<noteq> None"
  proof (cases e)
    case (Close code now)
    then show ?thesis using onClose_settles [of tc n code now s] by auto
  qed (use Cons.prems in simp_all)
  then show ?case using Cons.IH by simp
qed

lemma runSingleTest_settles: "fst (runSingleTest b exe tc n) \<noteq> Pending"
proof (cases b)
  case (SpawnThrows err)
  then show ?thesis by (simp add: runSingleTest_def)
next
  case (Spawned evs timerNow)
  let ?s1 = "fold (deliver tc n) evs (executor exe tc)"
  have "timerPending ?s1 \<or> settled ?s1 \<noteq> None"
    by (rule settled_invariant) (simp add: executor_def)
  then show ?thesis
    using Spawned
    by (auto simp: runSingleTest_def Let_def onTimeout_def resolve_simps split: option.splits)
qed

lemma runSingleTest_effects:
  "snd (runSingleTest (Spawned evs timerNow) exe tc n) =
     [Spawn exe, StdinWrite (TestCase.input tc @ [LF]), StdinEnd, SetTimeout 5000]
     @ eventEffects evs @ (if list_ex isClose evs then [] else [Kill])"
  by (simp add: runSingleTest_def Let_def fold_deliver_timerPending fold_deliver_effects
      onTimeout_def resolve_simps executor_def)

lemma runSingleTest_timeout:
  assumes "\<not> list_ex isClose evs"
  shows "fst (runSingleTest (Spawned evs timerNow) exe tc n) =
     Resolved \<lparr>testNumber = n, passed = False, input = TestCase.input tc,
               expectedOutput = output tc, actualOutput = stdoutOf evs,
               error = Some (js ''Time Limit Exceeded''), executionTime = timerNow\<rparr>"
  using assms fold_deliver_no_close [OF assms, of tc n "executor exe tc"]
  by (simp add: runSingleTest_def Let_def fold_deliver_timerPending onTimeout_def resolve_simps)
     (simp add: executor_def)

lemma runSingleTest_close:
  assumes "\<not> list_ex isClose pre"
  shows "fst (runSingleTest (Spawned (pre @ Close code now # post) timerNow) exe tc n) =
     (case settled (onClose tc n code now
        ((executor exe tc)\<lparr>stdout := stdoutOf pre, stderr := stderrOf pre,
           effects := effects (executor exe tc) @ eventEffects pre\<rparr>)) of
        None \<Rightarrow> Pending | Some r \<Rightarrow> Resolved r)"
proof -
  let ?s0 = "executor exe tc"
  let ?s1 = "fold (deliver tc n) pre ?s0"
  have s1: "?s1 = ?s0\<lparr>stdout := stdoutOf pre, stderr := stderrOf pre,
           effects := effects ?s0 @ eventEffects pre\<rparr>"
    using fold_deliver_no_close [OF assms, of tc n ?s0]
      fold_deliver_effects [of tc n pre ?s0] fold_deliver_timerPending [of tc n pre ?s0] assms
    by (simp add: executor_def)
  let ?s2 = "onClose tc n code now ?s1"
  obtain r where r: "settled ?s2 = Some r"
    using onClose_settles [of tc n code now ?s1] by auto
  have "settled (fold (deliver tc n) post ?s2) = Some r"
    using r by (rule fold_deliver_settled_keep)
  moreover have "\<not> timerPending (fold (deliver tc n) post ?s2)"
    by (simp add: fold_deliver_timerPending onClose_simps)
  ultimately show ?thesis
    using r by (simp add: runSingleTest_def Let_def s1)
qed

lemma error_event_uncaught:
  assumes "ErrorEvent err \<in> set evs"
  shows "UncaughtException err \<in> set (snd (runSingleTest (Spawned evs timerNow) exe tc n))"
proof -
  have "UncaughtException err \<in> set (eventEffects evs)"
    using assms by (induction evs rule: eventEffects.induct) auto
  then show ?thesis by (simp add: runSingleTest_effects)
qed

lemma runtime_error_not_wrong_answer:
  "js ''Runtime Error (Exit code: '' @ rest \<noteq> js ''Wrong Answer''"
  by (simp add: js_def)


section \<open>Lemmas on \<open>runTestCases\<close>\<close>

lemma resolve_settled_cases:
  "settled (resolve r s) = Some r' \<Longrightarrow> settled s = Some r' \<or> r' = r"
  by (cases "settled s") (simp_all add: resolve_def)

lemma onClose_wellFormed:
  assumes "\<And>r'. settled s = Some r' \<Longrightarrow> wellFormedResult tc n r'"
    and "settled (onClose tc n code now s) = Some r'"
  shows "wellFormedResult tc n r'"
proof -
  have "settled s = Some r' \<or> wellFormedResult tc n r'"
    using assms(2)
    by (auto simp: onClose_def Let_def wellFormedResult_def
        split: option.splits if_splits dest!: resolve_settled_cases)
  with assms(1) show ?thesis by blast
qed

lemma deliver_wellFormed:
  assumes "\<And>r'. settled s = Some r' \<Longrightarrow> wellFormedResult tc n r'"
    and "settled (deliver tc n e s) = Some r'"
  shows "wellFormedResult tc n r'"
  using assms by (cases e) (auto intro: onClose_wellFormed)

lemma fold_deliver_wellFormed:
  assumes "\<And>r'. settled s = Some r' \<Longrightarrow> wellFormedResult tc n r'"
    and "settled (fold (deliver tc n) evs s) = Some r'"
  shows "wellFormedResult tc n r'"
  using assms
proof (induction evs arbitrary: s)
  case Nil
  then show ?case by simp
next
  case (Cons e evs)
  show ?case
  proof (rule Cons.IH [of "deliver tc n e s"])
    show "\<And>r'. settled (deliver tc n e s) = Some r' \<Longrightarrow> wellFormedResult tc n r'"
      using Cons.prems(1) by (rule deliver_wellFormed)
    show "settled (fold (deliver tc n) evs (deliver tc n e s)) = Some r'"
      using Cons.prems(2) by simp
  qed
qed

lemma runSingleTest_wellFormed:
  assumes "fst (runSingleTest b exe tc n) = Resolved r"
  shows "wellFormedResult tc n r"
proof (cases b)
  case (SpawnThrows err)
  with assms show ?thesis by (simp add: runSingleTest_def)
next
  case (Spawned evs timerNow)
  let ?s1 = "fold (deliver tc n) evs (executor exe tc)"
  have s1: "\<And>r'. settled ?s1 = Some r' \<Longrightarrow> wellFormedResult tc n r'"
    by (rule fold_deliver_wellFormed [of "executor exe tc"]) (simp_all add: executor_def)
  show ?thesis
  proof (cases "timerPending ?s1")
    case True
    from True assms Spawned have "settled ?s1 = Some r \<or> wellFormedResult tc n r"
      by (auto simp: runSingleTest_def Let_def onTimeout_def wellFormedResult_def
          split: option.splits dest!: resolve_settled_cases)
    with s1 show ?thesis by blast
  next
    case False
    with assms Spawned s1 show ?thesis
      by (auto simp: runSingleTest_def Let_def split: option.splits)
  qed
qed

lemma body_cases:
  obtains r where "fst (runTestCases_body world exe tcs i) = Some r"
    and "wellFormedResult (tcs ! i) (i + 1) r"
proof -
  obtain p es where pe: "runSingleTest (world (i + 1)) exe (tcs ! i) (i + 1) = (p, es)"
    by (cases "runSingleTest (world (i + 1)) exe (tcs ! i) (i + 1)")
  show ?thesis
  proof (cases p)
    case Pending
    with pe show ?thesis
      using runSingleTest_settles [of "world (i + 1)" exe "tcs ! i" "i + 1"] by simp
  next
    case (Resolved r)
    with pe have "fst (runTestCases_body world exe tcs i) = Some r"
      by (simp add: runTestCases_body_def Let_def)
    moreover have "wellFormedResult (tcs ! i) (i + 1) r"
      using pe Resolved by (intro runSingleTest_wellFormed [of "world (i + 1)" exe]) simp
    ultimately show ?thesis by (rule that)
  next
    case (Rejected err)
    with pe have "fst (runTestCases_body world exe tcs i) =
        Some \<lparr>testNumber = i + 1, passed = False, input = TestCase.input (tcs ! i),
               expectedOutput = output (tcs ! i), actualOutput = [],
               error = Some (errorMessageOf err), executionTime = 0\<rparr>"
      by (simp add: runTestCases_body_def Let_def)
    then show ?thesis
      by (rule that) (simp add: wellFormedResult_def)
  qed
qed

lemma body_effects:
  "snd (runTestCases_body world exe tcs i) =
     snd (runSingleTest (world (i + 1)) exe (tcs ! i) (i + 1))"
  by (simp add: runTestCases_body_def Let_def split: prod.splits promise.splits)

lemma loop_run:
  "runTestCases_loop world exe tcs i results log =
     Some (results @ map (\<lambda>j. the (fst (runTestCases_body world exe tcs j))) [i..<length tcs],
           log @ concat (map (\<lambda>j. snd (runTestCases_body world exe tcs j)) [i..<length tcs]))"
proof (induction world exe tcs i results log rule: runTestCases_loop.induct)
  case (1 world exe tcs i results log)
  show ?case
  proof (cases "i < length tcs")
    case True
    obtain r where r: "fst (runTestCases_body world exe tcs i) = Some r"
      by (rule body_cases)
    then obtain es where b: "runTestCases_body world exe tcs i = (Some r, es)"
      by (cases "runTestCases_body world exe tcs i") simp
    have u: "[i..<length tcs] = i # [i + 1..<length tcs]"
      using True by (simp add: upt_conv_Cons)
    have "runTestCases_loop world exe tcs i results log =
        runTestCases_loop world exe tcs (i + 1) (results @ [r]) (log @ es)"
      using True b by (subst runTestCases_loop.simps) simp
    also have "\<dots> = Some ((results @ [r]) @ map (\<lambda>j. the (fst (runTestCases_body world exe tcs j))) [i + 1..<length tcs],
           (log @ es) @ concat (map (\<lambda>j. snd (runTestCases_body world exe tcs j)) [i + 1..<length tcs]))"
      using True b by (intro "1.IH" [of "Some r" es r]) simp_all
    finally show ?thesis
      using b by (simp add: u)
  next
    case False
    then show ?thesis by (subst runTestCases_loop.simps) simp
  qed
qed

lemma runTestCases_run:
  "runTestCases world exe tcs =
     Some (map (\<lambda>j. the (fst (runTestCases_body world exe tcs j))) [0..<length tcs],
           concat (map (\<lambda>j. snd (runSingleTest (world (j + 1)) exe (tcs ! j) (j + 1)))
                     [0..<length tcs]))"
  by (simp add: runTestCases_def loop_run body_effects)

lemma body_wellFormed:
  "wellFormedResult (tcs ! i) (i + 1) (the (fst (runTestCases_body world exe tcs i)))"
  by (rule body_cases [of world exe tcs i]) simp

lemma map_nth_fun: "map (\<lambda>j. f (xs ! j)) [0..<length xs] = map f xs"
proof -
  have "map (\<lambda>j. f (xs ! j)) [0..<length xs] = map f (map ((!) xs) [0..<length xs])"
    by simp
  then show ?thesis by (simp only: map_nth)
qed

lemma rejection_caught:
  assumes "i < length tcs" and "world (i + 1) = SpawnThrows err"
  shows "\<exists>results log. runTestCases world exe tcs = Some (results, log)
     \<and> length results = length tcs
     \<and> results ! i = \<lparr>testNumber = i + 1, passed = False, input = TestCase.input (tcs ! i),
             expectedOutput = output (tcs ! i), actualOutput = [],
             error = Some (errorMessageOf err), executionTime = 0\<rparr>"
  using assms
  by (simp add: runTestCases_run runTestCases_body_def runSingleTest_def Let_def)

lemma filter_eventEffects:
  "filter isSetTimeout (eventEffects evs) = []"
  "filter isStdinOp (eventEffects evs) = []"
  by (induction evs rule: eventEffects.induct) simp_all

lemma runSingleTest_timers:
  "filter isSetTimeout (snd (runSingleTest b exe tc n)) =
     (if spawnReturns b then [SetTimeout 5000] else [])"
proof (cases b)
  case (SpawnThrows err)
  then show ?thesis by (simp add: runSingleTest_def)
next
  case (Spawned evs timerNow)
  then show ?thesis by (simp add: runSingleTest_effects filter_eventEffects)
qed

lemma runSingleTest_stdin:
  "filter isStdinOp (snd (runSingleTest b exe tc n)) =
     (if spawnReturns b then [StdinWrite (TestCase.input tc @ [LF]), StdinEnd] else [])"
proof (cases b)
  case (SpawnThrows err)
  then show ?thesis by (simp add: runSingleTest_def)
next
  case (Spawned evs timerNow)
  then show ?thesis by (simp add: runSingleTest_effects filter_eventEffects)
qed

lemma concat_map_if:
  "concat (map (\<lambda>j. if P j then f j else []) xs) = concat (map f (filter P xs))"
  by (induction xs) simp_all


section \<open>Properties\<close>

text \<open>
  The rules of one run, as the callbacks have them. When the timer callback runs before
  any \<open>'close'\<close> event, the result is the failure \<open>Time Limit Exceeded\<close>. Otherwise the first
  \<open>'close'\<close> event decides: exit code \<open>null\<close> gives the failure
  \<open>Process terminated unexpectedly\<close>; a nonzero exit code \<open>c\<close> gives the failure
  \<open>Runtime Error (Exit code: c)\<close>, whatever was written to stdout, and that error is never
  \<open>Wrong Answer\<close>; exit code \<open>0\<close> gives a passing result when \<open>normalizeOutput\<close> maps stdout
  and the expected output to the same text, and the failure \<open>Wrong Answer\<close> when it does not.
\<close>

lemma runSingleTest_rules:
  assumes "\<not> list_ex isClose pre"
  shows
    "fst (runSingleTest (Spawned pre timerNow) exe tc n) =
       Resolved \<lparr>testNumber = n, passed = False, input = TestCase.input tc,
                 expectedOutput = output tc, actualOutput = stdoutOf pre,
                 error = Some (js ''Time Limit Exceeded''), executionTime = timerNow\<rparr>
     \<and> fst (runSingleTest (Spawned (pre @ Close None now # post) timerNow) exe tc n) =
       Resolved \<lparr>testNumber = n, passed = False, input = TestCase.input tc,
                 expectedOutput = output tc, actualOutput = stdoutOf pre,
                 error = Some (js ''Process terminated unexpectedly. Program may be waiting for input or stuck in infinite loop.''
                               @ [LF] @ js ''Stderr: '' @ stderrOf pre),
                 executionTime = now\<rparr>
     \<and> (c \<noteq> 0 \<longrightarrow>
          fst (runSingleTest (Spawned (pre @ Close (Some c) now # post) timerNow) exe tc n) =
            Resolved \<lparr>testNumber = n, passed = False, input = TestCase.input tc,
                      expectedOutput = output tc, actualOutput = stdoutOf pre,
                      error = Some (js ''Runtime Error (Exit code: '' @ numberToString c @ js '')''
                                    @ [LF] @ stderrOf pre),
                      executionTime = now\<rparr>
          \<and> js ''Runtime Error (Exit code: '' @ numberToString c @ js '')'' @ [LF] @ stderrOf pre
              \<noteq> js ''Wrong Answer'')
     \<and> fst (runSingleTest (Spawned (pre @ Close (Some 0) now # post) timerNow) exe tc n) =
       Resolved \<lparr>testNumber = n,
                 passed = (normalizeOutput (stdoutOf pre) = normalizeOutput (output tc)),
                 input = TestCase.input tc,
                 expectedOutput = output tc, actualOutput = stdoutOf pre,
                 error = (if normalizeOutput (stdoutOf pre) = normalizeOutput (output tc)
                          then None else Some (js ''Wrong Answer'')),
                 executionTime = now\<rparr>"
proof -
  have 1: "fst (runSingleTest (Spawned pre timerNow) exe tc n) =
       Resolved \<lparr>testNumber = n, passed = False, input = TestCase.input tc,
                 expectedOutput = output tc, actualOutput = stdoutOf pre,
                 error = Some (js ''Time Limit Exceeded''), executionTime = timerNow\<rparr>"
    using assms by (rule runSingleTest_timeout)
  have 2: "fst (runSingleTest (Spawned (pre @ Close None now # post) timerNow) exe tc n) =
       Resolved \<lparr>testNumber = n, passed = False, input = TestCase.input tc,
                 expectedOutput = output tc, actualOutput = stdoutOf pre,
                 error = Some (js ''Process terminated unexpectedly. Program may be waiting for input or stuck in infinite loop.''
                               @ [LF] @ js ''Stderr: '' @ stderrOf pre),
                 executionTime = now\<rparr>"
    by (simp add: runSingleTest_close [OF assms] onClose_def resolve_def executor_def)
  have 3: "fst (runSingleTest (Spawned (pre @ Close (Some c) now # post) timerNow) exe tc n) =
            Resolved \<lparr>testNumber = n, passed = False, input = TestCase.input tc,
                      expectedOutput = output tc, actualOutput = stdoutOf pre,
                      error = Some (js ''Runtime Error (Exit code: '' @ numberToString c @ js '')''
                                    @ [LF] @ stderrOf pre),
                      executionTime = now\<rparr>" if "c \<noteq> 0"
    using that by (simp add: runSingleTest_close [OF assms] onClose_def resolve_def executor_def)
  have 4: "fst (runSingleTest (Spawned (pre @ Close (Some 0) now # post) timerNow) exe tc n) =
       Resolved \<lparr>testNumber = n,
                 passed = (normalizeOutput (stdoutOf pre) = normalizeOutput (output tc)),
                 input = TestCase.input tc,
                 expectedOutput = output tc, actualOutput = stdoutOf pre,
                 error = (if normalizeOutput (stdoutOf pre) = normalizeOutput (output tc)
                          then None else Some (js ''Wrong Answer'')),
                 executionTime = now\<rparr>"
    by (simp add: runSingleTest_close [OF assms] onClose_def resolve_def executor_def
        compareOutputs_def Let_def)
  from 1 2 3 4 show ?thesis
    using runtime_error_not_wrong_answer by blast
qed

lemma runSingleTest_rules_example:
  "fst (runSingleTest (Spawned [StdoutData (js ''YES'')] 5003) (js ''a.exe'') sampleCase 1) =
     Resolved \<lparr>testNumber = 1, passed = False, input = js ''8'',
               expectedOutput = js ''YES'', actualOutput = js ''YES'',
               error = Some (js ''Time Limit Exceeded''), executionTime = 5003\<rparr>
   \<and> fst (runSingleTest (Spawned [StdoutData (js ''YES''), Close (Some 3) 12] 5003)
          (js ''a.exe'') sampleCase 1) =
     Resolved \<lparr>testNumber = 1, passed = False, input = js ''8'',
               expectedOutput = js ''YES'', actualOutput = js ''YES'',
               error = Some (js ''Runtime Error (Exit code: '' @ js ''3'' @ js '')'' @ [LF]),
               executionTime = 12\<rparr>"
proof -
  have h: "\<not> list_ex isClose [StdoutData (js ''YES'')]" by simp
  have n3: "numberToString 3 = js ''3''"
    by (simp add: numberToString_def digitsOf.simps js_def)
  show ?thesis
    using runSingleTest_rules [OF h, of 5003 "js ''a.exe''" sampleCase 1 12 "[]" 3]
    by (simp add: sampleCase_def n3)
qed

text \<open>
  C1. The fourth rule at stdout \<open>"  8"\<close>, expected output \<open>"8"\<close> and exit code 0. The
  two texts differ after the specification's normalization, which keeps the indentation
  of the first line, so the rule asks for \<open>Wrong Answer\<close>. The \<open>'close'\<close> listener compares
  them with \<open>compareOutputs\<close>, whose final \<open>trim()\<close> removes that indentation, and resolves
  with a passing result and no error. The first three rules hold as stated
  (\<open>runSingleTest_rules\<close>).
\<close>

theorem indented_output_accepted:
  "fst (runSingleTest (Spawned [StdoutData (js ''  8''), Close (Some 0) 12] 5003) (js ''a.exe'')
          \<lparr>TestCase.input = js ''8'', output = js ''8'', explanation = None\<rparr> 1) =
     Resolved \<lparr>testNumber = 1, passed = True, input = js ''8'', expectedOutput = js ''8'',
               actualOutput = js ''  8'', error = None, executionTime = 12\<rparr>
   \<and> spec_normalize (js ''  8'') = js ''  8''
   \<and> spec_normalize (js ''8'') = js ''8''
   \<and> spec_normalize (js ''  8'') \<noteq> spec_normalize (js ''8'')"
  by code_simp

text \<open>
  C2. For every sequence of test cases, empty or not, and every behaviour of the children,
  \<open>runTestCases\<close> returns one result per test case, in the order of the test cases: the
  test numbers are \<open>1, 2, \<dots>, length\<close> (so 1-based, distinct and contiguous), and the input
  and expected output of each result are those of its test case. The total that
  \<open>showTestResults\<close> reports is the number of test cases, and the passed count is the
  number of results marked passed.
\<close>

theorem runTestCases_report:
  "\<exists>results log. runTestCases world exe tcs = Some (results, log)
     \<and> length results = length tcs
     \<and> map testNumber results = [1..<length tcs + 1]
     \<and> distinct (map testNumber results)
     \<and> map TestResult.input results = map TestCase.input tcs
     \<and> map expectedOutput results = map output tcs
     \<and> totalTests results = length tcs
     \<and> passedTests results = length (filter passed results)"
proof -
  let ?results = "map (\<lambda>j. the (fst (runTestCases_body world exe tcs j))) [0..<length tcs]"
  have wf: "wellFormedResult (tcs ! j) (j + 1) (the (fst (runTestCases_body world exe tcs j)))" for j
    by (rule body_wellFormed)
  have nums: "map testNumber ?results = [1..<length tcs + 1]"
  proof -
    have "map testNumber ?results = map Suc [0..<length tcs]"
      using wf by (simp add: wellFormedResult_def)
    then show ?thesis by (simp add: map_Suc_upt)
  qed
  have ins: "map TestResult.input ?results = map TestCase.input tcs"
  proof -
    have "map TestResult.input ?results = map (\<lambda>j. TestCase.input (tcs ! j)) [0..<length tcs]"
      using wf by (simp add: wellFormedResult_def)
    then show ?thesis by (simp only: map_nth_fun)
  qed
  have outs: "map expectedOutput ?results = map output tcs"
  proof -
    have "map expectedOutput ?results = map (\<lambda>j. output (tcs ! j)) [0..<length tcs]"
      using wf by (simp add: wellFormedResult_def)
    then show ?thesis by (simp only: map_nth_fun)
  qed
  have "distinct (map testNumber ?results)"
    by (simp only: nums distinct_upt)
  with nums ins outs show ?thesis
    by (simp add: runTestCases_run totalTests_def passedTests_def)
qed

text \<open>
  C3. When the child has not closed by the time the timer callback runs, the timer fires
  first: the callback kills the child (\<open>Kill\<close> is the last effect), and the result is the
  failure \<open>Time Limit Exceeded\<close> whose \<open>actualOutput\<close> is exactly the stdout chunks received
  until then.
\<close>

theorem timer_fires_first:
  assumes "\<not> list_ex isClose evs"
  shows "runSingleTest (Spawned evs timerNow) exe tc n =
     (Resolved \<lparr>testNumber = n, passed = False, input = TestCase.input tc,
                expectedOutput = output tc, actualOutput = stdoutOf evs,
                error = Some (js ''Time Limit Exceeded''), executionTime = timerNow\<rparr>,
      [Spawn exe, StdinWrite (TestCase.input tc @ [LF]), StdinEnd, SetTimeout 5000]
      @ eventEffects evs @ [Kill])"
  using assms runSingleTest_timeout [OF assms, of timerNow exe tc n]
    runSingleTest_effects [of evs timerNow exe tc n]
  by (simp add: prod_eq_iff)

theorem timer_fires_first_witness:
  "runSingleTest (Spawned [StdoutData (js ''YE''), StderrData (js ''warn''), StdoutData (js ''S'')] 5003)
     (js ''a.exe'') sampleCase 1 =
     (Resolved \<lparr>testNumber = 1, passed = False, input = js ''8'',
                expectedOutput = js ''YES'', actualOutput = js ''YE'' @ js ''S'',
                error = Some (js ''Time Limit Exceeded''), executionTime = 5003\<rparr>,
      [Spawn (js ''a.exe''), StdinWrite (js ''8'' @ [LF]), StdinEnd, SetTimeout 5000, Kill])"
proof -
  have h: "\<not> list_ex isClose [StdoutData (js ''YE''), StderrData (js ''warn''), StdoutData (js ''S'')]"
    by simp
  show ?thesis
    using timer_fires_first [OF h, of 5003 "js ''a.exe''" sampleCase 1]
    by (simp add: sampleCase_def)
qed

text \<open>
  C4. The run of two test cases with an executable that does not exist. \<open>cp.spawn\<close> returns
  a child and reports the failure as an \<open>'error'\<close> event on it; \<open>runSingleTest\<close> has no
  listener for it. The error is not caught by the \<open>catch\<close> block of \<open>runTestCases\<close>: it
  surfaces as an uncaught exception, and each case ends five seconds later as
  \<open>Time Limit Exceeded\<close>, not with the error's message. (What the \<open>catch\<close> block does catch,
  a rejected promise, is \<open>rejection_caught\<close>; that every \<open>'error'\<close> event goes unhandled is
  \<open>error_event_uncaught\<close>.)
\<close>

theorem missing_executable_unhandled:
  "runTestCases (\<lambda>n. Spawned [ErrorEvent (ErrorObject (js ''spawn a.exe ENOENT''))] 5003)
     (js ''a.exe'') [sampleCase, sampleCase] =
   Some ([\<lparr>testNumber = 1, passed = False, input = js ''8'', expectedOutput = js ''YES'',
            actualOutput = [], error = Some (js ''Time Limit Exceeded''),
            executionTime = 5003\<rparr>,
          \<lparr>testNumber = 2, passed = False, input = js ''8'', expectedOutput = js ''YES'',
            actualOutput = [], error = Some (js ''Time Limit Exceeded''),
            executionTime = 5003\<rparr>],
         [Spawn (js ''a.exe''), StdinWrite (js ''8'' @ [LF]), StdinEnd, SetTimeout 5000,
          UncaughtException (ErrorObject (js ''spawn a.exe ENOENT'')), Kill,
          Spawn (js ''a.exe''), StdinWrite (js ''8'' @ [LF]), StdinEnd, SetTimeout 5000,
          UncaughtException (ErrorObject (js ''spawn a.exe ENOENT'')), Kill])"
  by code_simp

text \<open>
  C5. \<open>normalizeOutput\<close> ends with \<open>trim()\<close>, which removes every leading white-space code
  unit, not only leading line feeds: the two spaces that open the first line of a
  two-line pattern are removed, and the output \<open>"  8"\<close> compares equal to the expected
  \<open>"8"\<close>. Leading white space on the first non-blank line is not preserved.
\<close>

theorem trim_strips_leading_spaces:
  "normalizeOutput (js ''  *'' @ [LF] @ js '' ***'') = js ''*'' @ [LF] @ js '' ***''
   \<and> compareOutputs (js ''  8'') (js ''8'')"
  by code_simp

text \<open>
  C6. Normalization is idempotent: applying \<open>normalizeOutput\<close>, the canonicalization that
  \<open>compareOutputs\<close> applies to both the actual and the expected output, a second time
  changes nothing, for every text.
\<close>

theorem normalizeOutput_idempotent:
  "normalizeOutput (normalizeOutput s) = normalizeOutput s"
proof -
  let ?J = "join_LF (map trimEnd (split_LF s))"
  have "rstripped_lines (trim ?J)"
    unfolding trim_def
    by (intro rstripped_lines_trimEnd rstripped_lines_trimStart rstripped_lines_join)
  then have "join_LF (map trimEnd (split_LF (trim ?J))) = trim ?J"
    by (rule rstripped_lines_fixed)
  then show ?thesis
    by (simp add: normalizeOutput_def trim_idem)
qed

text \<open>
  C7. A run that the timer ends (no \<open>'close'\<close> event before the timer callback) and a run
  whose first \<open>'close'\<close> event carries the exit code \<open>null\<close> both resolve to a result that
  is not marked passed, whatever was received on stdout.
\<close>

theorem timeout_or_kill_never_passes:
  assumes "\<not> list_ex isClose pre"
  shows "(\<exists>r. fst (runSingleTest (Spawned pre timerNow) exe tc n) = Resolved r \<and> \<not> passed r)
       \<and> (\<exists>r. fst (runSingleTest (Spawned (pre @ Close None now # post) timerNow) exe tc n)
               = Resolved r \<and> \<not> passed r)"
proof -
  have "fst (runSingleTest (Spawned (pre @ Close None now # post) timerNow) exe tc n) =
       Resolved \<lparr>testNumber = n, passed = False, input = TestCase.input tc,
                 expectedOutput = output tc, actualOutput = stdoutOf pre,
                 error = Some (js ''Process terminated unexpectedly. Program may be waiting for input or stuck in infinite loop.''
                               @ [LF] @ js ''Stderr: '' @ stderrOf pre),
                 executionTime = now\<rparr>"
    by (simp add: runSingleTest_close [OF assms] onClose_def resolve_def executor_def)
  then show ?thesis
    using runSingleTest_timeout [OF assms, of timerNow exe tc n] by simp
qed

theorem timeout_or_kill_never_passes_witness:
  "(\<exists>r. fst (runSingleTest (Spawned [StdoutData (js ''YES'')] 5003) (js ''a.exe'') sampleCase 1)
         = Resolved r \<and> \<not> passed r)
   \<and> (\<exists>r. fst (runSingleTest (Spawned [StdoutData (js ''YES''), Close None 40] 5003)
                  (js ''a.exe'') sampleCase 1) = Resolved r \<and> \<not> passed r)"
proof -
  have h: "\<not> list_ex isClose [StdoutData (js ''YES'')]" by simp
  show ?thesis
    using timeout_or_kill_never_passes [OF h, of 5003 "js ''a.exe''" sampleCase 1 40 "[]"]
    by simp
qed

text \<open>
  C8. For the empty sequence of test cases \<open>runTestCases\<close> returns no results and performs
  no effect, so no child is spawned; the total and the passed count are both 0.
\<close>

theorem empty_suite:
  "runTestCases world exe [] = Some ([], []) \<and> totalTests [] = 0 \<and> passedTests [] = 0"
  by (simp add: runTestCases_def runTestCases_loop.simps totalTests_def passedTests_def)

text \<open>
  C9. In every result that \<open>runTestCases\<close> returns, \<open>passed\<close> is true if and only if
  \<open>error\<close> is \<open>null\<close>: each failing result carries an error string, each passing result
  carries none.
\<close>

theorem passed_iff_no_error:
  "\<exists>results log. runTestCases world exe tcs = Some (results, log)
     \<and> (\<forall>r \<in> set results. passed r \<longleftrightarrow> error r = None)"
proof -
  have "wellFormedResult (tcs ! j) (j + 1) (the (fst (runTestCases_body world exe tcs j)))" for j
    by (rule body_wellFormed)
  then show ?thesis
    by (auto simp: runTestCases_run wellFormedResult_def)
qed

theorem passed_iff_no_error_witness:
  "\<exists>results log.
     runTestCases (\<lambda>n. if n = 1 then Spawned [StdoutData (js ''YES''), Close (Some 0) 12] 5003
                        else Spawned [StdoutData (js ''NO''), Close (Some 0) 9] 5003)
       (js ''a.exe'') [sampleCase, sampleCase] = Some (results, log)
     \<and> length results = 2
     \<and> passed (results ! 0) \<and> error (results ! 0) = None
     \<and> \<not> passed (results ! 1) \<and> error (results ! 1) = Some (js ''Wrong Answer'')"
proof -
  let ?w = "\<lambda>n::nat. if n = 1 then Spawned [StdoutData (js ''YES''), Close (Some 0) 12] 5003
                        else Spawned [StdoutData (js ''NO''), Close (Some 0) 9] 5003"
  obtain results log
    where run: "runTestCases ?w (js ''a.exe'') [sampleCase, sampleCase] = Some (results, log)"
      and iff: "\<forall>r \<in> set results. passed r \<longleftrightarrow> error r = None"
    using passed_iff_no_error [of ?w "js ''a.exe''" "[sampleCase, sampleCase]"] by blast
  have ev: "runTestCases ?w (js ''a.exe'') [sampleCase, sampleCase] =
      Some ([\<lparr>testNumber = 1, passed = True, input = js ''8'', expectedOutput = js ''YES'',
               actualOutput = js ''YES'', error = None, executionTime = 12\<rparr>,
             \<lparr>testNumber = 2, passed = False, input = js ''8'', expectedOutput = js ''YES'',
               actualOutput = js ''NO'', error = Some (js ''Wrong Answer''), executionTime = 9\<rparr>],
            [Spawn (js ''a.exe''), StdinWrite (js ''8'' @ [LF]), StdinEnd, SetTimeout 5000,
             ClearTimeout,
             Spawn (js ''a.exe''), StdinWrite (js ''8'' @ [LF]), StdinEnd, SetTimeout 5000,
             ClearTimeout])"
    by code_simp
  from run ev have len: "length results = 2" and p0: "passed (results ! 0)"
    and e1: "error (results ! 1) = Some (js ''Wrong Answer'')"
    by auto
  from len have "results ! 0 \<in> set results" and "results ! 1 \<in> set results"
    by simp_all
  with iff p0 e1 have "error (results ! 0) = None" and "\<not> passed (results ! 1)"
    by auto
  with run len p0 e1 show ?thesis by simp
qed

text \<open>
  C10. In every suite run, each child that \<open>cp.spawn\<close> returns gets one timer and its delay
  is 5000 ms; its stdin receives the input of its test case followed by one line feed, and
  is then ended. Nothing else sets a timer or writes to a stdin. Changing the \<open>timeLimit\<close>
  field of the problem data changes nothing in what \<open>handleRunTests\<close> does.
\<close>

theorem fixed_timeout_and_stdin:
  "\<exists>results log. runTestCases world exe tcs = Some (results, log)
     \<and> filter isSetTimeout log =
         map (\<lambda>i. SetTimeout 5000) (filter (\<lambda>i. spawnReturns (world (i + 1))) [0..<length tcs])
     \<and> filter isStdinOp log =
         concat (map (\<lambda>i. [StdinWrite (TestCase.input (tcs ! i) @ [LF]), StdinEnd])
                   (filter (\<lambda>i. spawnReturns (world (i + 1))) [0..<length tcs]))
     \<and> handleRunTests h (Some (pd\<lparr>timeLimit := t\<rparr>)) = handleRunTests h (Some pd)"
proof -
  let ?log = "concat (map (\<lambda>j. snd (runSingleTest (world (j + 1)) exe (tcs ! j) (j + 1)))
                     [0..<length tcs])"
  let ?sp = "filter (\<lambda>i. spawnReturns (world (i + 1))) [0..<length tcs]"
  have "filter isSetTimeout ?log =
      concat (map (\<lambda>j. if spawnReturns (world (j + 1)) then [SetTimeout 5000] else [])
                [0..<length tcs])"
    by (simp add: filter_concat comp_def runSingleTest_timers)
  also have "\<dots> = concat (map (\<lambda>i. [SetTimeout 5000]) ?sp)"
    by (rule concat_map_if)
  also have "\<dots> = map (\<lambda>i. SetTimeout 5000) ?sp"
    by (induction ?sp) simp_all
  finally have timers: "filter isSetTimeout ?log = map (\<lambda>i. SetTimeout 5000) ?sp" .
  have "filter isStdinOp ?log =
      concat (map (\<lambda>j. if spawnReturns (world (j + 1))
                        then [StdinWrite (TestCase.input (tcs ! j) @ [LF]), StdinEnd] else [])
                [0..<length tcs])"
    by (simp add: filter_concat comp_def runSingleTest_stdin)
  also have "\<dots> = concat (map (\<lambda>i. [StdinWrite (TestCase.input (tcs ! i) @ [LF]), StdinEnd]) ?sp)"
    by (rule concat_map_if)
  finally have stdin: "filter isStdinOp ?log =
      concat (map (\<lambda>i. [StdinWrite (TestCase.input (tcs ! i) @ [LF]), StdinEnd]) ?sp)" .
  have "sampleTests (pd\<lparr>timeLimit := t\<rparr>) = sampleTests pd"
    by simp
  then have "handleRunTests h (Some (pd\<lparr>timeLimit := t\<rparr>)) = handleRunTests h (Some pd)"
    by (simp only: handleRunTests_def option.case)
  with timers stdin show ?thesis
    by (simp add: runTestCases_run)
qed

end
